theory Spec2Isabelle
  imports Main "HOL-Library.Word"
begin

section \<open>Outcomes of a Go call\<close>

text \<open>
  A Go call either returns a value or panics (an unrecovered panic in any goroutine ends
  the process).  Calls that may loop forever are modelled with \<open>option\<close> on top of
  this: \<open>None\<close> is "never returns".
\<close>

datatype 'a outcome = Panic | Return 'a

section \<open>Ledger data (common.go, block.go)\<close>

text \<open>
  \<open>int64\<close> fields are 64-bit words (\<open>+\<close> wraps, as Go's does).  \<open>Amount\<close> is a
  \<open>float64\<close>; it is carried as its 64-bit IEEE pattern and never computed with here.
  \<open>Difficulty\<close> is a Go \<open>int\<close>; no arithmetic is done on it, so it is an \<open>int\<close>.
  The \<open>Timestamp\<close> field of a transaction is named \<open>TxTimestamp\<close>, since the block has
  a field of that name too.  A block is the value a \<open>*Block\<close> points to.  A
  \<open>*Block\<close> passed as an argument is taken to be non-nil; an entry of a slice of
  \<open>*Block\<close> may be nil (\<open>json.Unmarshal\<close> stores nil for a JSON \<open>null\<close>), so
  it is a \<open>Block option\<close>, and reading a field through \<open>None\<close> panics.  A nil
  slice of transactions is not told apart from an empty one.  No function below writes
  to a block it did not create, so sharing of blocks between chains is not visible.
\<close>

record Transaction =
  Sender :: string
  Receiver :: string
  Amount :: "64 word"
  TxTimestamp :: "64 word"

record Block =
  Index :: "64 word"
  Timestamp :: "64 word"
  Transactions :: "Transaction list"
  PrevHash :: string
  Hash :: string
  Nonce :: "64 word"
  Difficulty :: int

text \<open>
  \<open>CalculateHash\<close> marshals an anonymous struct of five fields (index, timestamp,
  transactions, prev_hash, nonce) to JSON, takes SHA-256 of the bytes and prints the
  digest in hex.  \<open>json.Marshal\<close>, \<open>sha256.Sum256\<close> and \<open>hex.EncodeToString\<close>
  are library code: their composition is the parameter \<open>sha\<close> of every function below,
  a function of the five fields.  Nothing is assumed about it.
\<close>

type_synonym hash_payload = "64 word \<times> 64 word \<times> Transaction list \<times> string \<times> 64 word"

type_synonym digest = "hash_payload \<Rightarrow> string"

definition CalculateHash :: "digest \<Rightarrow> Block \<Rightarrow> string" where
  "CalculateHash sha b = sha (Index b, Timestamp b, Transactions b, PrevHash b, Nonce b)"

text \<open>
  \<open>strings.Repeat(s, count)\<close> panics when \<open>count\<close> is negative (memory is
  taken to suffice for the result otherwise);
  \<open>strings.HasPrefix(s, prefix)\<close> is
  \<open>len(s) >= len(prefix) && s[:len(prefix)] == prefix\<close>.
\<close>

definition Repeat :: "string \<Rightarrow> int \<Rightarrow> string outcome" where
  "Repeat s count = (if count < 0 then Panic else Return (concat (replicate (nat count) s)))"

definition HasPrefix :: "string \<Rightarrow> string \<Rightarrow> bool" where
  "HasPrefix s p = (length p \<le> length s \<and> take (length p) s = p)"

text \<open>
  \<open>Mine\<close>: the target is built once, then the loop stores the hash, returns when it has
  the target as a prefix, and increments the nonce otherwise.  The loop has no bound, so
  it is a partial function: \<open>None\<close> means it never returns.
\<close>

partial_function (option) Mine_loop :: "digest \<Rightarrow> string \<Rightarrow> Block \<Rightarrow> Block option" where
  "Mine_loop sha target b =
     (let b1 = b\<lparr>Hash := CalculateHash sha b\<rparr> in
      if HasPrefix (Hash b1) target then Some b1
      else Mine_loop sha target (b1\<lparr>Nonce := Nonce b1 + 1\<rparr>))"

definition Mine :: "digest \<Rightarrow> Block \<Rightarrow> Block outcome option" where
  "Mine sha b =
     (case Repeat ''0'' (Difficulty b) of
        Panic \<Rightarrow> Some Panic
      | Return target \<Rightarrow> map_option Return (Mine_loop sha target b))"

text \<open>\<open>CreateBlock\<close>; \<open>now\<close> is the value of \<open>time.Now().Unix()\<close>.\<close>

definition CreateBlock ::
  "digest \<Rightarrow> 64 word \<Rightarrow> 64 word \<Rightarrow> Transaction list \<Rightarrow> string \<Rightarrow> int \<Rightarrow> Block outcome option" where
  "CreateBlock sha now index transactions prevHash difficulty =
     Mine sha \<lparr>Index = index, Timestamp = now, Transactions = transactions,
               PrevHash = prevHash, Hash = [], Nonce = 0, Difficulty = difficulty\<rparr>"

definition ValidateBlock :: "digest \<Rightarrow> Block \<Rightarrow> bool outcome" where
  "ValidateBlock sha b =
     (let calculatedHash = CalculateHash sha b in
      if calculatedHash \<noteq> Hash b then Return False
      else (case Repeat ''0'' (Difficulty b) of
              Panic \<Rightarrow> Panic
            | Return target \<Rightarrow> Return (HasPrefix (Hash b) target)))"

section \<open>The backup store (ipfs\_handler.go)\<close>

text \<open>
  The IPFS node is an external service.  The handler is the record of what the node
  answers while one call of the chain store or of the message handler runs: \<open>None\<close>
  (for \<open>Pin\<close>: \<open>False\<close>) is a returned error.  A block is stored and pinned at
  most once in such a run.  A chain blob may be read more than once, and the node may
  deliver it to one read and fail the next: \<open>Cat ih hash n\<close> says whether the read of
  \<open>hash\<close> that comes after \<open>n\<close> earlier reads in the run delivers the blob
  (\<open>shell.Cat\<close> and \<open>io.ReadAll\<close> both succeed).  A content ID is the hash of
  the bytes it names, so it names one blob: \<open>Blob ih hash\<close> is what
  \<open>json.Unmarshal\<close> makes of it, \<open>None\<close> when it does not decode into a slice
  of \<open>*Block\<close>.  The entries of the slice may be nil.
\<close>

record IPFSHandler =
  StoreBlock :: "Block \<Rightarrow> string option"
  Pin :: "string \<Rightarrow> bool"
  Cat :: "string \<Rightarrow> nat \<Rightarrow> bool"
  Blob :: "string \<Rightarrow> Block option list option"

text \<open>\<open>RetrieveBlockchain\<close>: read the blob, then decode it.\<close>

definition RetrieveBlockchain :: "IPFSHandler \<Rightarrow> string \<Rightarrow> nat \<Rightarrow> Block option list option" where
  "RetrieveBlockchain ih hash reads = (if Cat ih hash reads then Blob ih hash else None)"

section \<open>The chain store (blockchain.go)\<close>

text \<open>The errors the chain store builds with \<open>fmt.Errorf\<close>, one constructor per message.\<close>

datatype ChainError =
    InvalidPreviousHash
  | InvalidProofOfWork
  | StoreBlockFailed
  | PinBlockFailed
  | RestoreFailed
  | HashMismatchAt nat
  | InvalidProofOfWorkAt nat

text \<open>
  The \<open>Blockchain\<close> struct: the slice of block pointers and the difficulty (named
  \<open>ChainDifficulty\<close>, the block has a field \<open>Difficulty\<close>).  The mutex and the
  transaction scorer play no part in the functions below; the IPFS handler is passed
  beside the chain.  A method that mutates its receiver returns the receiver updated,
  next to its Go result.  A method that reads the store takes the number of reads made
  earlier in the run.
\<close>

record Blockchain =
  Blocks :: "Block option list"
  ChainDifficulty :: int

definition AddBlock ::
  "digest \<Rightarrow> IPFSHandler \<Rightarrow> Blockchain \<Rightarrow> Block \<Rightarrow> (ChainError option \<times> Blockchain) outcome" where
  "AddBlock sha ih bc block =
     (case (if length (Blocks bc) > 0 then
              (let currentBlock = block;
                   previousBlock = Blocks bc ! (length (Blocks bc) - 1) in
               (case previousBlock of
                  None \<Rightarrow> Panic
                | Some prev \<Rightarrow>
                    if PrevHash currentBlock \<noteq> Hash prev then Return (Some InvalidPreviousHash)
                    else (case ValidateBlock sha currentBlock of
                            Panic \<Rightarrow> Panic
                          | Return ok \<Rightarrow>
                              if \<not> ok then Return (Some InvalidProofOfWork) else Return None)))
            else Return None) of
        Panic \<Rightarrow> Panic
      | Return (Some err) \<Rightarrow> Return (Some err, bc)
      | Return None \<Rightarrow>
          (case StoreBlock ih block of
             None \<Rightarrow> Return (Some StoreBlockFailed, bc)
           | Some ipfsHash \<Rightarrow>
               if \<not> Pin ih ipfsHash then Return (Some PinBlockFailed, bc)
               else Return (None, bc\<lparr>Blocks := Blocks bc @ [Some block]\<rparr>)))"

text \<open>\<open>GetLatestBlock\<close> returns a pointer: nil for an empty chain, the last entry otherwise.\<close>

definition GetLatestBlock :: "Blockchain \<Rightarrow> Block option" where
  "GetLatestBlock bc =
     (if length (Blocks bc) = 0 then None else Blocks bc ! (length (Blocks bc) - 1))"

text \<open>
  The comparison \<open>currentBlock.PrevHash != previousBlock.Hash\<close> reads through both
  pointers; it panics when either is nil.
\<close>

function IsValid_loop :: "digest \<Rightarrow> Block option list \<Rightarrow> nat \<Rightarrow> bool outcome" where
  "IsValid_loop sha blocks i =
     (if i < length blocks then
        (let currentBlock = blocks ! i;
             previousBlock = blocks ! (i - 1) in
         (case currentBlock of
            None \<Rightarrow> Panic
          | Some cur \<Rightarrow>
              (case previousBlock of
                 None \<Rightarrow> Panic
               | Some prev \<Rightarrow>
                   if PrevHash cur \<noteq> Hash prev then Return False
                   else (case ValidateBlock sha cur of
                           Panic \<Rightarrow> Panic
                         | Return ok \<Rightarrow>
                             if \<not> ok then Return False else IsValid_loop sha blocks (i + 1)))))
      else Return True)"
  by pat_completeness auto
termination
  by (relation "measure (\<lambda>(sha, blocks, i). length blocks - i)") auto

definition IsValid :: "digest \<Rightarrow> Blockchain \<Rightarrow> bool outcome" where
  "IsValid sha bc = IsValid_loop sha (Blocks bc) 1"

function RestoreFromIPFS_loop ::
  "digest \<Rightarrow> Block option list \<Rightarrow> nat \<Rightarrow> ChainError option outcome" where
  "RestoreFromIPFS_loop sha blocks i =
     (if i < length blocks then
        (let currentBlock = blocks ! i;
             previousBlock = blocks ! (i - 1) in
         (case currentBlock of
            None \<Rightarrow> Panic
          | Some cur \<Rightarrow>
              (case previousBlock of
                 None \<Rightarrow> Panic
               | Some prev \<Rightarrow>
                   if PrevHash cur \<noteq> Hash prev then Return (Some (HashMismatchAt i))
                   else (case ValidateBlock sha cur of
                           Panic \<Rightarrow> Panic
                         | Return ok \<Rightarrow>
                             if \<not> ok then Return (Some (InvalidProofOfWorkAt i))
                             else RestoreFromIPFS_loop sha blocks (i + 1)))))
      else Return None)"
  by pat_completeness auto
termination
  by (relation "measure (\<lambda>(sha, blocks, i). length blocks - i)") auto

definition RestoreFromIPFS ::
  "digest \<Rightarrow> IPFSHandler \<Rightarrow> nat \<Rightarrow> Blockchain \<Rightarrow> string \<Rightarrow>
     (ChainError option \<times> Blockchain) outcome" where
  "RestoreFromIPFS sha ih reads bc hash =
     (case RetrieveBlockchain ih hash reads of
        None \<Rightarrow> Return (Some RestoreFailed, bc)
      | Some blocks \<Rightarrow>
          (case RestoreFromIPFS_loop sha blocks 1 of
             Panic \<Rightarrow> Panic
           | Return (Some err) \<Rightarrow> Return (Some err, bc)
           | Return None \<Rightarrow> Return (None, bc\<lparr>Blocks := blocks\<rparr>)))"

section \<open>The gossip network (network.go)\<close>

text \<open>
  \<open>MessageType\<close> is a Go string type; the \<open>switch\<close> of the handler compares strings.
\<close>

type_synonym MessageType = string

definition MessageTypeNewBlock :: MessageType where
  "MessageTypeNewBlock = ''NEW_BLOCK''"

definition MessageTypeNewTx :: MessageType where
  "MessageTypeNewTx = ''NEW_TRANSACTION''"

definition MessageTypeBlockchain :: MessageType where
  "MessageTypeBlockchain = ''BLOCKCHAIN_REQUEST''"

definition MessageTypeBlockchainResponse :: MessageType where
  "MessageTypeBlockchainResponse = ''BLOCKCHAIN_RESPONSE''"

definition MessageTypeIPFSBackup :: MessageType where
  "MessageTypeIPFSBackup = ''IPFS_BACKUP''"

text \<open>
  The field \<open>Content\<close> of a message is an \<open>interface{}\<close>: a value together with
  its dynamic type, which the handler's type assertions inspect.  \<open>godata\<close> are the
  values of the dynamic types that \<open>encoding/json\<close> stores in an empty interface
  (\<open>nil\<close>, \<open>bool\<close>, \<open>float64\<close>, \<open>string\<close>, \<open>[]interface{}\<close>,
  \<open>map[string]interface{}\<close>); a Go \<open>string\<close> is \<open>GoString\<close>.  The other
  dynamic types the package puts into \<open>Content\<close> are the three pointer types.
\<close>

datatype godata =
    GoNil
  | GoBool bool
  | GoFloat64 "64 word"
  | GoString string
  | GoSlice "godata list"
  | GoMap "(string \<times> godata) list"

datatype content =
    Untyped godata
  | BlockPtr Block
  | TransactionPtr Transaction
  | BlockchainPtr Blockchain

record BlockchainMessage =
  Type :: MessageType
  Content :: content
  From :: string
  To :: string

text \<open>
  A connection is known by an identifier.  The map \<open>Peers\<close> is the list of its entries
  (Go leaves the iteration order open); \<open>isConnected\<close> is read with the zero value
  \<open>false\<close> for an absent key, so it is a function.  \<open>blockchain\<close> is a pointer that
  may be \<open>nil\<close>.
\<close>

type_synonym Conn = nat

record PeerConnection =
  Address :: string
  Conn :: Conn

record PeerNetwork =
  MyAddress :: string
  Peers :: "(string \<times> PeerConnection) list"
  isConnected :: "string \<Rightarrow> bool"
  blockchain :: "Blockchain option"

text \<open>
  Sending is an effect: a function that sends returns the list of (connection, message)
  pairs it hands to an encoder.  \<open>BroadcastMessage\<close> starts one goroutine per peer; a
  failed send is only logged.
\<close>

type_synonym sends = "(Conn \<times> BlockchainMessage) list"

definition BroadcastMessage :: "PeerNetwork \<Rightarrow> BlockchainMessage \<Rightarrow> sends" where
  "BroadcastMessage pn msg = map (\<lambda>(addr, peer). (Conn peer, msg)) (Peers pn)"

definition BroadcastNewBlock :: "PeerNetwork \<Rightarrow> Block \<Rightarrow> sends" where
  "BroadcastNewBlock pn block =
     BroadcastMessage pn
       \<lparr>Type = MessageTypeNewBlock, Content = BlockPtr block, From = MyAddress pn, To = []\<rparr>"

definition BroadcastTransaction :: "PeerNetwork \<Rightarrow> Transaction \<Rightarrow> sends" where
  "BroadcastTransaction pn tx =
     BroadcastMessage pn
       \<lparr>Type = MessageTypeNewTx, Content = TransactionPtr tx, From = MyAddress pn, To = []\<rparr>"

definition BroadcastIPFSBackup :: "PeerNetwork \<Rightarrow> string \<Rightarrow> sends" where
  "BroadcastIPFSBackup pn hash =
     BroadcastMessage pn
       \<lparr>Type = MessageTypeIPFSBackup, Content = Untyped (GoString hash), From = MyAddress pn,
        To = []\<rparr>"

text \<open>
  \<open>handleMessage\<close>: the \<open>switch\<close> on the message type, each case guarded by a type
  assertion on \<open>Content\<close>.  The result is the peer network after the call and the
  messages sent.  \<open>AddBlock\<close> and \<open>RestoreFromIPFS\<close> mutate the chain
  \<open>pn.blockchain\<close> points to; the chain response case stores a new pointer.  The
  backup case reads the blob itself (the first read of the run) and then calls
  \<open>RestoreFromIPFS\<close>, which reads it again (after one earlier read).
\<close>

definition handleMessage ::
  "digest \<Rightarrow> IPFSHandler \<Rightarrow> PeerNetwork \<Rightarrow> BlockchainMessage \<Rightarrow> Conn \<Rightarrow> (PeerNetwork \<times> sends) outcome" where
  "handleMessage sha ih pn message conn =
     (if Type message = MessageTypeNewBlock then
        (case Content message of
           BlockPtr block \<Rightarrow>
             (case blockchain pn of
                None \<Rightarrow> Return (pn, [])
              | Some bc \<Rightarrow>
                  (case AddBlock sha ih bc block of
                     Panic \<Rightarrow> Panic
                   | Return (Some err, bc') \<Rightarrow> Return (pn\<lparr>blockchain := Some bc'\<rparr>, [])
                   | Return (None, bc') \<Rightarrow>
                       Return (pn\<lparr>blockchain := Some bc'\<rparr>,
                               BroadcastNewBlock (pn\<lparr>blockchain := Some bc'\<rparr>) block)))
         | _ \<Rightarrow> Return (pn, []))
      else if Type message = MessageTypeNewTx then
        (case Content message of
           TransactionPtr tx \<Rightarrow> Return (pn, BroadcastTransaction pn tx)
         | _ \<Rightarrow> Return (pn, []))
      else if Type message = MessageTypeBlockchain then
        (case blockchain pn of
           None \<Rightarrow> Return (pn, [])
         | Some bc \<Rightarrow>
             Return (pn, [(conn, \<lparr>Type = MessageTypeBlockchainResponse, Content = BlockchainPtr bc,
                                  From = MyAddress pn, To = From message\<rparr>)]))
      else if Type message = MessageTypeBlockchainResponse then
        (case Content message of
           BlockchainPtr remote \<Rightarrow>
             (if (case blockchain pn of
                    None \<Rightarrow> True
                  | Some bc \<Rightarrow> length (Blocks remote) > length (Blocks bc)) then
                (case IsValid sha remote of
                   Panic \<Rightarrow> Panic
                 | Return ok \<Rightarrow>
                     if ok then Return (pn\<lparr>blockchain := Some remote\<rparr>, []) else Return (pn, []))
              else Return (pn, []))
         | _ \<Rightarrow> Return (pn, []))
      else if Type message = MessageTypeIPFSBackup then
        (case Content message of
           Untyped (GoString hash) \<Rightarrow>
             (case blockchain pn of
                None \<Rightarrow> Return (pn, [])
              | Some bc \<Rightarrow>
                  (case RetrieveBlockchain ih hash 0 of
                     None \<Rightarrow> Return (pn, [])
                   | Some tempBlocks \<Rightarrow>
                       if length tempBlocks > length (Blocks bc) then
                         (case RestoreFromIPFS sha ih 1 bc hash of
                            Panic \<Rightarrow> Panic
                          | Return (err, bc') \<Rightarrow> Return (pn\<lparr>blockchain := Some bc'\<rparr>, []))
                       else Return (pn, [])))
         | _ \<Rightarrow> Return (pn, []))
      else Return (pn, []))"

text \<open>
  One round of the read loop of \<open>handleMessages\<close>: \<open>decoder.Decode(&message)\<close>
  fills a fresh \<open>BlockchainMessage\<close> from the next JSON object of the stream, then
  \<open>handleMessage\<close> is called.  A \<open>frame\<close> is that JSON object, read field by field
  (an absent field leaves the zero value).  The decoder stores the \<open>content\<close> field in
  the empty interface as \<open>godata\<close>: it has no other type to decode into.  Input that
  does not decode ends the loop and the connection, and reaches no handler.
\<close>

record frame =
  frame_type :: string
  frame_content :: godata
  frame_from :: string
  frame_to :: string

definition Decode :: "frame \<Rightarrow> BlockchainMessage" where
  "Decode f = \<lparr>Type = frame_type f, Content = Untyped (frame_content f),
               From = frame_from f, To = frame_to f\<rparr>"

definition handleMessages_round ::
  "digest \<Rightarrow> IPFSHandler \<Rightarrow> PeerNetwork \<Rightarrow> Conn \<Rightarrow> frame \<Rightarrow> (PeerNetwork \<times> sends) outcome" where
  "handleMessages_round sha ih pn conn f = handleMessage sha ih pn (Decode f) conn"

section \<open>Notions of the specification\<close>

text \<open>
  The number of leading \<open>'0'\<close> characters of a hash, which the specification's
  difficulty target speaks about.
\<close>

definition leading_zeros :: "string \<Rightarrow> nat" where
  "leading_zeros s = length (takeWhile (\<lambda>c. c = CHR ''0'') s)"

text \<open>
  The hash that mining tries in round \<open>k\<close> (counted from 0) on block \<open>b\<close>: the nonce has
  been incremented \<open>k\<close> times, wrapping at 64 bits.
\<close>

definition attempt :: "digest \<Rightarrow> Block \<Rightarrow> nat \<Rightarrow> string" where
  "attempt sha b k = CalculateHash sha (b\<lparr>Nonce := Nonce b + of_nat k\<rparr>)"

text \<open>
  The chain invariant in the specification's words: the genesis block is well-formed
  (index 0, no transactions, empty previous hash), and every later block carries its own
  hash, meets its difficulty target and names its predecessor's hash.  The specification
  speaks of blocks: a slice with a nil entry at a place the invariant speaks about does
  not satisfy it.
\<close>

definition genesis_well_formed :: "Block \<Rightarrow> bool" where
  "genesis_well_formed g = (Index g = 0 \<and> Transactions g = [] \<and> PrevHash g = [])"

definition block_invariants :: "digest \<Rightarrow> Block \<Rightarrow> Block \<Rightarrow> bool" where
  "block_invariants sha prev b =
     (PrevHash b = Hash prev \<and> CalculateHash sha b = Hash b \<and>
      0 \<le> Difficulty b \<and> nat (Difficulty b) \<le> leading_zeros (Hash b))"

definition links_valid :: "digest \<Rightarrow> Block option list \<Rightarrow> bool" where
  "links_valid sha blocks =
     (\<forall>i \<in> {1..<length blocks}.
        case blocks ! (i - 1) of
          None \<Rightarrow> False
        | Some prev \<Rightarrow> (case blocks ! i of None \<Rightarrow> False | Some b \<Rightarrow> block_invariants sha prev b))"

definition spec_chain_invariant :: "digest \<Rightarrow> Block option list \<Rightarrow> bool" where
  "spec_chain_invariant sha blocks =
     (case blocks of
        [] \<Rightarrow> False
      | first # rest \<Rightarrow>
          (case first of None \<Rightarrow> False | Some g \<Rightarrow> genesis_well_formed g) \<and>
          links_valid sha blocks)"

text \<open>
  The specification's sequence of append calls: a caller running \<open>AddBlock\<close> calls
  one after the other, each with the store as it answers during that call, stopping at
  the first call that does not succeed.
\<close>

fun AddBlocks ::
  "digest \<Rightarrow> Blockchain \<Rightarrow> (IPFSHandler \<times> Block) list \<Rightarrow> (ChainError option \<times> Blockchain) outcome" where
  "AddBlocks sha bc [] = Return (None, bc)"
| "AddBlocks sha bc ((ih, block) # calls) =
     (case AddBlock sha ih bc block of
        Panic \<Rightarrow> Panic
      | Return (Some err, bc') \<Rightarrow> Return (Some err, bc')
      | Return (None, bc') \<Rightarrow> AddBlocks sha bc' calls)"

section \<open>Concrete inputs\<close>

text \<open>
  Stand-ins for the digest, used to run the definitions on concrete inputs.
  \<open>sha_demo\<close> answers a hash with two leading zeros at nonce 2 and a hash with none at
  every other nonce.  \<open>sha_zeros\<close> answers 64 zeros for every input: no digest of 64
  hex characters is more favourable to mining.
\<close>

definition sha_demo :: digest where
  "sha_demo payload =
     (case payload of (index, timestamp, transactions, prevHash, nonce) \<Rightarrow>
        if nonce = 2 then ''00c7'' else ''9f31'')"

definition sha_zeros :: digest where
  "sha_zeros payload = replicate 64 CHR ''0''"

text \<open>A transaction of 500.0 (the amount is the bit pattern of that \<open>float64\<close>).\<close>

definition tx_demo :: Transaction where
  "tx_demo = \<lparr>Sender = ''Alice'', Receiver = ''Bob'', Amount = 4647503709213818880,
               TxTimestamp = 0\<rparr>"

definition fresh_demo :: Block where
  "fresh_demo = \<lparr>Index = 0, Timestamp = 17, Transactions = [], PrevHash = [], Hash = [],
                  Nonce = 0, Difficulty = 2\<rparr>"

definition genesis_demo :: Block where
  "genesis_demo = \<lparr>Index = 0, Timestamp = 17, Transactions = [], PrevHash = [], Hash = ''00c7'',
                    Nonce = 2, Difficulty = 2\<rparr>"

definition block1_demo :: Block where
  "block1_demo = \<lparr>Index = 1, Timestamp = 29, Transactions = [tx_demo], PrevHash = ''00c7'',
                   Hash = ''00c7'', Nonce = 2, Difficulty = 2\<rparr>"

text \<open>A block that names a wrong predecessor, and one whose stored hash is not its hash.\<close>

definition stray_demo :: Block where
  "stray_demo = \<lparr>Index = 1, Timestamp = 29, Transactions = [tx_demo], PrevHash = ''beef'',
                  Hash = ''00c7'', Nonce = 2, Difficulty = 2\<rparr>"

definition forged_demo :: Block where
  "forged_demo = \<lparr>Index = 5, Timestamp = 29, Transactions = [tx_demo], PrevHash = ''beef'',
                   Hash = ''1234'', Nonce = 9, Difficulty = 2\<rparr>"

definition empty_chain :: Blockchain where
  "empty_chain = \<lparr>Blocks = [], ChainDifficulty = 2\<rparr>"

definition chain1_demo :: Blockchain where
  "chain1_demo = \<lparr>Blocks = [Some genesis_demo], ChainDifficulty = 2\<rparr>"

definition chain2_demo :: Blockchain where
  "chain2_demo = \<lparr>Blocks = [Some genesis_demo, Some block1_demo], ChainDifficulty = 2\<rparr>"

text \<open>A chain whose only entry is nil, as a restored blob \<open>[null]\<close> leaves it.\<close>

definition nil_chain :: Blockchain where
  "nil_chain = \<lparr>Blocks = [None], ChainDifficulty = 2\<rparr>"

text \<open>The store answering, the store refusing to store, and the store refusing to pin.\<close>

definition ih_up :: IPFSHandler where
  "ih_up = \<lparr>StoreBlock = (\<lambda>b. Some ''Qm01''), Pin = (\<lambda>h. True),
             Cat = (\<lambda>h n. False), Blob = (\<lambda>h. None)\<rparr>"

definition ih_down :: IPFSHandler where
  "ih_down = \<lparr>StoreBlock = (\<lambda>b. None), Pin = (\<lambda>h. False),
               Cat = (\<lambda>h n. False), Blob = (\<lambda>h. None)\<rparr>"

definition ih_nopin :: IPFSHandler where
  "ih_nopin = \<lparr>StoreBlock = (\<lambda>b. Some ''Qm01''), Pin = (\<lambda>h. False),
                Cat = (\<lambda>h n. False), Blob = (\<lambda>h. None)\<rparr>"

text \<open>
  A block asking for 65 leading zeros, and an unmined block with difficulty 0 whose
  nonce is 7.
\<close>

definition greedy_demo :: Block where
  "greedy_demo = \<lparr>Index = 0, Timestamp = 17, Transactions = [], PrevHash = [], Hash = [],
                   Nonce = 0, Difficulty = 65\<rparr>"

definition seven_demo :: Block where
  "seven_demo = \<lparr>Index = 3, Timestamp = 17, Transactions = [], PrevHash = [], Hash = [],
                  Nonce = 7, Difficulty = 0\<rparr>"

text \<open>
  A chain whose first block is the forged block, followed by a block that links to it and
  validates; and a chain whose second block names a wrong predecessor.
\<close>

definition follower_demo :: Block where
  "follower_demo = \<lparr>Index = 1, Timestamp = 29, Transactions = [tx_demo], PrevHash = ''1234'',
                     Hash = ''00c7'', Nonce = 2, Difficulty = 2\<rparr>"

definition forged_chain :: Blockchain where
  "forged_chain = \<lparr>Blocks = [Some forged_demo, Some follower_demo], ChainDifficulty = 2\<rparr>"

definition stray_chain :: Blockchain where
  "stray_chain = \<lparr>Blocks = [Some genesis_demo, Some stray_demo], ChainDifficulty = 2\<rparr>"

text \<open>
  A peer with two connections whose chain is the one-block chain; a backup
  announcement as it is decoded from the stream; and a store that holds the two-block
  chain, a chain whose second block names a wrong predecessor, a one-block chain, a blob
  whose second entry is \<open>null\<close>, the two-block chain under an ID whose first read
  succeeds and whose later reads fail, and nothing under an ID no read of which succeeds.
\<close>

definition pn_demo :: PeerNetwork where
  "pn_demo = \<lparr>MyAddress = ''localhost:9001'',
              Peers = [(''localhost:9002'', \<lparr>Address = ''localhost:9002'', Conn = 2\<rparr>),
                       (''localhost:9003'', \<lparr>Address = ''localhost:9003'', Conn = 3\<rparr>)],
              isConnected = (\<lambda>a. a = ''localhost:9002'' \<or> a = ''localhost:9003''),
              blockchain = Some chain1_demo\<rparr>"



text \<open>
  The JSON of the second block and of the two-block chain, as the decoder stores them in
  an empty interface (numbers are \<open>float64\<close>, given by their bit patterns), the
  frames that carry them, and the messages a caller would have to build for the type
  assertions of the handler to succeed.
\<close>

definition block1_json :: godata where
  "block1_json =
     GoMap [(''index'', GoFloat64 4607182418800017408),
            (''timestamp'', GoFloat64 4628855992006737920),
            (''transactions'',
               GoSlice [GoMap [(''sender'', GoString ''Alice''), (''receiver'', GoString ''Bob''),
                               (''amount'', GoFloat64 4647503709213818880),
                               (''timestamp'', GoFloat64 0)]]),
            (''prev_hash'', GoString ''00c7''), (''hash'', GoString ''00c7''),
            (''nonce'', GoFloat64 4611686018427387904),
            (''difficulty'', GoFloat64 4611686018427387904)]"

definition genesis_json :: godata where
  "genesis_json =
     GoMap [(''index'', GoFloat64 0), (''timestamp'', GoFloat64 4625478292286210048),
            (''transactions'', GoSlice []),
            (''prev_hash'', GoString []), (''hash'', GoString ''00c7''),
            (''nonce'', GoFloat64 4611686018427387904),
            (''difficulty'', GoFloat64 4611686018427387904)]"

definition chain2_json :: godata where
  "chain2_json =
     GoMap [(''Blocks'', GoSlice [genesis_json, block1_json]),
            (''Difficulty'', GoFloat64 4611686018427387904),
            (''MLValidator'', GoMap [])]"

definition new_block_frame :: frame where
  "new_block_frame = \<lparr>frame_type = ''NEW_BLOCK'', frame_content = block1_json,
                       frame_from = ''localhost:9002'', frame_to = []\<rparr>"

definition chain_response_frame :: frame where
  "chain_response_frame = \<lparr>frame_type = ''BLOCKCHAIN_RESPONSE'', frame_content = chain2_json,
                            frame_from = ''localhost:9002'', frame_to = ''localhost:9001''\<rparr>"

definition new_block_message :: BlockchainMessage where
  "new_block_message = \<lparr>Type = ''NEW_BLOCK'', Content = BlockPtr block1_demo,
                         From = ''localhost:9002'', To = []\<rparr>"

definition chain_response_message :: BlockchainMessage where
  "chain_response_message = \<lparr>Type = ''BLOCKCHAIN_RESPONSE'', Content = BlockchainPtr chain2_demo,
                              From = ''localhost:9002'', To = ''localhost:9001''\<rparr>"

section \<open>Library functions\<close>

lemma concat_replicate_single: "concat (replicate n [c]) = replicate n c"
  by (induction n) simp_all

lemma Repeat_zero_nonneg: "0 \<le> d \<Longrightarrow> Repeat ''0'' d = Return (replicate (nat d) CHR ''0'')"
  by (simp add: Repeat_def concat_replicate_single)

lemma Repeat_negative: "d < 0 \<Longrightarrow> Repeat s d = Panic"
  by (simp add: Repeat_def)

lemma HasPrefix_append: "HasPrefix s p \<longleftrightarrow> (\<exists>r. s = p @ r)"
  unfolding HasPrefix_def
proof
  assume h: "length p \<le> length s \<and> take (length p) s = p"
  then have "s = p @ drop (length p) s"
    by (metis append_take_drop_id)
  then show "\<exists>r. s = p @ r" ..
next
  assume "\<exists>r. s = p @ r"
  then show "length p \<le> length s \<and> take (length p) s = p" by auto
qed

text \<open>The code's prefix test against a string of zeros counts leading zeros.\<close>

lemma HasPrefix_zeros: "HasPrefix s (replicate n CHR ''0'') \<longleftrightarrow> n \<le> leading_zeros s"
proof
  assume "HasPrefix s (replicate n CHR ''0'')"
  then obtain r where s: "s = replicate n CHR ''0'' @ r"
    by (auto simp: HasPrefix_append)
  have "takeWhile (\<lambda>c. c = CHR ''0'') s = replicate n CHR ''0'' @ takeWhile (\<lambda>c. c = CHR ''0'') r"
    unfolding s by (rule takeWhile_append2) simp
  then show "n \<le> leading_zeros s"
    by (simp add: leading_zeros_def)
next
  assume n: "n \<le> leading_zeros s"
  let ?z = "takeWhile (\<lambda>c. c = CHR ''0'') s"
  have all0: "\<forall>c \<in> set ?z. c = CHR ''0''"
    by (auto dest: set_takeWhileD)
  have "?z = replicate (length ?z) CHR ''0''"
    using all0 by (simp add: replicate_length_same)
  then have z: "take n ?z = replicate n CHR ''0''"
    using n by (metis leading_zeros_def min.absorb2 take_replicate min.commute)
  have "s = ?z @ dropWhile (\<lambda>c. c = CHR ''0'') s" by simp
  then have "s = take n ?z @ (drop n ?z @ dropWhile (\<lambda>c. c = CHR ''0'') s)"
    by (metis append.assoc append_take_drop_id)
  then show "HasPrefix s (replicate n CHR ''0'')"
    unfolding HasPrefix_append z by blast
qed

section \<open>Hashing and validation of one block\<close>

lemma CalculateHash_Hash: "CalculateHash sha (b\<lparr>Hash := x\<rparr>) = CalculateHash sha b"
  by (simp add: CalculateHash_def)

lemma CalculateHash_Difficulty: "CalculateHash sha (b\<lparr>Difficulty := d\<rparr>) = CalculateHash sha b"
  by (simp add: CalculateHash_def)

lemma ValidateBlock_True_iff:
  "ValidateBlock sha b = Return True \<longleftrightarrow>
     CalculateHash sha b = Hash b \<and> 0 \<le> Difficulty b \<and> nat (Difficulty b) \<le> leading_zeros (Hash b)"
  by (cases "0 \<le> Difficulty b")
     (auto simp: ValidateBlock_def Let_def Repeat_zero_nonneg Repeat_negative HasPrefix_zeros)

lemma ValidateBlock_nonneg:
  "0 \<le> Difficulty b \<Longrightarrow>
     ValidateBlock sha b =
       Return (CalculateHash sha b = Hash b \<and> nat (Difficulty b) \<le> leading_zeros (Hash b))"
  by (auto simp: ValidateBlock_def Let_def Repeat_zero_nonneg HasPrefix_zeros)

lemma ValidateBlock_False_iff:
  "ValidateBlock sha b = Return False \<longleftrightarrow>
     CalculateHash sha b \<noteq> Hash b \<or>
     0 \<le> Difficulty b \<and> \<not> nat (Difficulty b) \<le> leading_zeros (Hash b)"
  by (cases "0 \<le> Difficulty b")
     (auto simp: ValidateBlock_def Let_def Repeat_zero_nonneg Repeat_negative HasPrefix_zeros)

section \<open>Appending a block\<close>

lemma AddBlock_empty:
  "length (Blocks bc) = 0 \<Longrightarrow>
     AddBlock sha ih bc b =
       (case StoreBlock ih b of
          None \<Rightarrow> Return (Some StoreBlockFailed, bc)
        | Some cid \<Rightarrow>
            if Pin ih cid then Return (None, bc\<lparr>Blocks := Blocks bc @ [Some b]\<rparr>)
            else Return (Some PinBlockFailed, bc))"
  by (simp add: AddBlock_def split: option.splits)

lemma AddBlock_nil_latest:
  "0 < length (Blocks bc) \<Longrightarrow> Blocks bc ! (length (Blocks bc) - 1) = None \<Longrightarrow>
     AddBlock sha ih bc b = Panic"
  by (simp add: AddBlock_def Let_def)

lemma AddBlock_bad_link:
  "0 < length (Blocks bc) \<Longrightarrow> Blocks bc ! (length (Blocks bc) - 1) = Some prev \<Longrightarrow>
   PrevHash b \<noteq> Hash prev \<Longrightarrow>
     AddBlock sha ih bc b = Return (Some InvalidPreviousHash, bc)"
  by (simp add: AddBlock_def Let_def)

lemma AddBlock_linked:
  "0 < length (Blocks bc) \<Longrightarrow> Blocks bc ! (length (Blocks bc) - 1) = Some prev \<Longrightarrow>
   PrevHash b = Hash prev \<Longrightarrow>
     AddBlock sha ih bc b =
       (case ValidateBlock sha b of
          Panic \<Rightarrow> Panic
        | Return ok \<Rightarrow>
            if \<not> ok then Return (Some InvalidProofOfWork, bc)
            else (case StoreBlock ih b of
                    None \<Rightarrow> Return (Some StoreBlockFailed, bc)
                  | Some cid \<Rightarrow>
                      if Pin ih cid then Return (None, bc\<lparr>Blocks := Blocks bc @ [Some b]\<rparr>)
                      else Return (Some PinBlockFailed, bc)))"
  by (simp add: AddBlock_def Let_def split: outcome.splits option.splits)

text \<open>Whatever fails, the chain is the one before the call; success adds the block at the end.\<close>

lemma AddBlock_error_unchanged:
  "AddBlock sha ih bc b = Return (Some err, bc') \<Longrightarrow> bc' = bc"
  by (auto simp: AddBlock_def Let_def split: if_splits outcome.splits option.splits)

lemma AddBlock_success:
  "AddBlock sha ih bc b = Return (None, bc') \<Longrightarrow>
     bc' = bc\<lparr>Blocks := Blocks bc @ [Some b]\<rparr> \<and>
     (\<exists>cid. StoreBlock ih b = Some cid \<and> Pin ih cid) \<and>
     (0 < length (Blocks bc) \<longrightarrow>
        (\<exists>prev. Blocks bc ! (length (Blocks bc) - 1) = Some prev \<and> PrevHash b = Hash prev) \<and>
        ValidateBlock sha b = Return True)"
  by (auto simp: AddBlock_def Let_def split: if_splits outcome.splits option.splits)

section \<open>Claims about validation and appending\<close>



text \<open>
  C10.  On an empty chain \<open>AddBlock\<close> checks neither the previous hash nor the proof of
  work: the outcome is decided by the store alone.  If storing fails the call fails, if
  pinning fails the call fails, and otherwise the block, whatever it is, becomes the
  first block.
\<close>

theorem AddBlock_first_block_unchecked:
  "length (Blocks bc) = 0 \<Longrightarrow>
     AddBlock sha ih bc b =
       (case StoreBlock ih b of
          None \<Rightarrow> Return (Some StoreBlockFailed, bc)
        | Some cid \<Rightarrow>
            if Pin ih cid then Return (None, bc\<lparr>Blocks := [Some b]\<rparr>)
            else Return (Some PinBlockFailed, bc))"
  by (simp add: AddBlock_empty split: option.splits)

text \<open>
  The forged block (stored hash not its hash, no leading zero, a previous hash naming
  nothing) is accepted as the first block; with the store down the call fails.
\<close>

theorem AddBlock_first_block_unchecked_witness:
  "ValidateBlock sha_demo forged_demo = Return False \<and>
   AddBlock sha_demo ih_up empty_chain forged_demo =
     Return (None, \<lparr>Blocks = [Some forged_demo], ChainDifficulty = 2\<rparr>) \<and>
   AddBlock sha_demo ih_down empty_chain forged_demo = Return (Some StoreBlockFailed, empty_chain)"
  using AddBlock_first_block_unchecked [of empty_chain sha_demo ih_up forged_demo]
    AddBlock_first_block_unchecked [of empty_chain sha_demo ih_down forged_demo]
  by (simp add: empty_chain_def ih_up_def ih_down_def ValidateBlock_def forged_demo_def
      sha_demo_def CalculateHash_def)

text \<open>
  C2 as stated says that on a non-empty chain a block with the right previous hash and
  a valid proof of work is appended.  It is not when the store fails: here the block
  links to the latest block and validates, the store accepts it but the pin fails, and
  the call returns an error with the chain as it was.
\<close>

theorem AddBlock_valid_block_not_appended:
  "Blocks chain1_demo ! (length (Blocks chain1_demo) - 1) = Some genesis_demo \<and>
   PrevHash block1_demo = Hash genesis_demo \<and>
   ValidateBlock sha_demo block1_demo = Return True \<and>
   AddBlock sha_demo ih_nopin chain1_demo block1_demo = Return (Some PinBlockFailed, chain1_demo)"
proof -
  have latest: "Blocks chain1_demo ! (length (Blocks chain1_demo) - 1) = Some genesis_demo"
    by (simp add: chain1_demo_def)
  have link: "PrevHash block1_demo = Hash genesis_demo"
    by (simp add: block1_demo_def genesis_demo_def)
  have valid: "ValidateBlock sha_demo block1_demo = Return True"
    by (simp add: ValidateBlock_nonneg leading_zeros_def CalculateHash_def sha_demo_def
        block1_demo_def)
  have "0 < length (Blocks chain1_demo)"
    by (simp add: chain1_demo_def)
  from AddBlock_linked [OF this latest link, of sha_demo ih_nopin] valid
  have "AddBlock sha_demo ih_nopin chain1_demo block1_demo =
      Return (Some PinBlockFailed, chain1_demo)"
    by (simp add: ih_nopin_def)
  with latest link valid show ?thesis by simp
qed

text \<open>
  C2, amended.  On a chain with at least one block whose latest entry is a block, for a
  block whose difficulty is a count: a previous hash other than the latest block's hash
  gives the linkage error; otherwise a recomputed hash other than the stored one, or a
  stored hash short of the leading-zero target, gives the proof-of-work error; otherwise
  the block is stored and pinned, and it is appended at the end of the chain exactly
  when both succeed (a store or pin failure is the call's error, and the chain stays as
  it was).  On an empty chain the previous hash is not looked at.  On a chain whose
  latest entry is nil the comparison of the hashes panics.
\<close>

theorem AddBlock_checks_then_stores:
  "(0 < length (Blocks bc) \<and> Blocks bc ! (length (Blocks bc) - 1) = Some prev \<and>
    0 \<le> Difficulty b \<longrightarrow>
      AddBlock sha ih bc b =
        (if PrevHash b \<noteq> Hash prev
           then Return (Some InvalidPreviousHash, bc)
         else if CalculateHash sha b \<noteq> Hash b \<or> \<not> nat (Difficulty b) \<le> leading_zeros (Hash b)
           then Return (Some InvalidProofOfWork, bc)
         else (case StoreBlock ih b of
                 None \<Rightarrow> Return (Some StoreBlockFailed, bc)
               | Some cid \<Rightarrow>
                   if Pin ih cid then Return (None, bc\<lparr>Blocks := Blocks bc @ [Some b]\<rparr>)
                   else Return (Some PinBlockFailed, bc)))) \<and>
   (length (Blocks bc) = 0 \<longrightarrow>
      AddBlock sha ih bc (b\<lparr>PrevHash := p\<rparr>) =
        (case StoreBlock ih (b\<lparr>PrevHash := p\<rparr>) of
           None \<Rightarrow> Return (Some StoreBlockFailed, bc)
         | Some cid \<Rightarrow>
             if Pin ih cid then Return (None, bc\<lparr>Blocks := [Some (b\<lparr>PrevHash := p\<rparr>)]\<rparr>)
             else Return (Some PinBlockFailed, bc))) \<and>
   (0 < length (Blocks bc) \<and> Blocks bc ! (length (Blocks bc) - 1) = None \<longrightarrow>
      AddBlock sha ih bc b = Panic)"
proof (intro conjI impI)
  assume h: "0 < length (Blocks bc) \<and> Blocks bc ! (length (Blocks bc) - 1) = Some prev \<and>
    0 \<le> Difficulty b"
  show "AddBlock sha ih bc b =
        (if PrevHash b \<noteq> Hash prev
           then Return (Some InvalidPreviousHash, bc)
         else if CalculateHash sha b \<noteq> Hash b \<or> \<not> nat (Difficulty b) \<le> leading_zeros (Hash b)
           then Return (Some InvalidProofOfWork, bc)
         else (case StoreBlock ih b of
                 None \<Rightarrow> Return (Some StoreBlockFailed, bc)
               | Some cid \<Rightarrow>
                   if Pin ih cid then Return (None, bc\<lparr>Blocks := Blocks bc @ [Some b]\<rparr>)
                   else Return (Some PinBlockFailed, bc)))"
  proof (cases "PrevHash b = Hash prev")
    case False
    with h show ?thesis by (simp add: AddBlock_bad_link)
  next
    case True
    with h show ?thesis
      by (simp add: AddBlock_linked ValidateBlock_nonneg)
  qed
next
  assume "length (Blocks bc) = 0"
  then show "AddBlock sha ih bc (b\<lparr>PrevHash := p\<rparr>) =
        (case StoreBlock ih (b\<lparr>PrevHash := p\<rparr>) of
           None \<Rightarrow> Return (Some StoreBlockFailed, bc)
         | Some cid \<Rightarrow>
             if Pin ih cid then Return (None, bc\<lparr>Blocks := [Some (b\<lparr>PrevHash := p\<rparr>)]\<rparr>)
             else Return (Some PinBlockFailed, bc))"
    by (simp add: AddBlock_empty split: option.splits)
next
  assume "0 < length (Blocks bc) \<and> Blocks bc ! (length (Blocks bc) - 1) = None"
  then show "AddBlock sha ih bc b = Panic"
    by (simp add: AddBlock_nil_latest)
qed

theorem AddBlock_checks_then_stores_witness:
  "AddBlock sha_demo ih_up chain1_demo block1_demo = Return (None, chain2_demo) \<and>
   AddBlock sha_demo ih_up chain1_demo stray_demo = Return (Some InvalidPreviousHash, chain1_demo) \<and>
   AddBlock sha_demo ih_up chain1_demo (forged_demo\<lparr>PrevHash := ''00c7''\<rparr>) =
     Return (Some InvalidProofOfWork, chain1_demo) \<and>
   AddBlock sha_demo ih_down chain1_demo block1_demo = Return (Some StoreBlockFailed, chain1_demo) \<and>
   AddBlock sha_demo ih_up empty_chain (genesis_demo\<lparr>PrevHash := ''beef''\<rparr>) =
     Return (None, \<lparr>Blocks = [Some (genesis_demo\<lparr>PrevHash := ''beef''\<rparr>)],
                    ChainDifficulty = 2\<rparr>) \<and>
   AddBlock sha_demo ih_up nil_chain block1_demo = Panic"
  using AddBlock_checks_then_stores [of chain1_demo genesis_demo block1_demo sha_demo ih_up]
    AddBlock_checks_then_stores [of nil_chain genesis_demo block1_demo sha_demo ih_up]
    AddBlock_checks_then_stores [of chain1_demo genesis_demo stray_demo sha_demo ih_up]
    AddBlock_checks_then_stores
      [of chain1_demo genesis_demo "forged_demo\<lparr>PrevHash := ''00c7''\<rparr>" sha_demo ih_up]
    AddBlock_checks_then_stores [of chain1_demo genesis_demo block1_demo sha_demo ih_down]
    AddBlock_checks_then_stores [of empty_chain genesis_demo genesis_demo sha_demo ih_up "''beef''"]
  by (simp add: sha_demo_def block1_demo_def forged_demo_def stray_demo_def chain1_demo_def
      chain2_demo_def empty_chain_def nil_chain_def genesis_demo_def CalculateHash_def
      leading_zeros_def ih_up_def ih_down_def)

text \<open>
  C3 as stated says that a failing store of the new block is reported but the block is
  appended all the same.  \<open>AddBlock\<close> stores before it appends and returns on the
  store's error: here a valid block that links to the latest block meets a store that
  is down; the call reports the store's failure and the chain still has its one block.
\<close>

theorem AddBlock_store_down_no_append:
  "AddBlock sha_demo ih_up chain1_demo block1_demo = Return (None, chain2_demo) \<and>
   AddBlock sha_demo ih_down chain1_demo block1_demo = Return (Some StoreBlockFailed, chain1_demo) \<and>
   Blocks chain1_demo = [Some genesis_demo]"
proof -
  have latest: "Blocks chain1_demo ! (length (Blocks chain1_demo) - 1) = Some genesis_demo"
    by (simp add: chain1_demo_def)
  have link: "PrevHash block1_demo = Hash genesis_demo"
    by (simp add: block1_demo_def genesis_demo_def)
  have valid: "ValidateBlock sha_demo block1_demo = Return True"
    by (simp add: ValidateBlock_nonneg leading_zeros_def CalculateHash_def sha_demo_def
        block1_demo_def)
  have nonempty: "0 < length (Blocks chain1_demo)"
    by (simp add: chain1_demo_def)
  have up: "AddBlock sha_demo ih_up chain1_demo block1_demo = Return (None, chain2_demo)"
    using AddBlock_linked [OF nonempty latest link, of sha_demo ih_up] valid
    by (simp add: ih_up_def chain1_demo_def chain2_demo_def)
  have down: "AddBlock sha_demo ih_down chain1_demo block1_demo =
      Return (Some StoreBlockFailed, chain1_demo)"
    using AddBlock_linked [OF nonempty latest link, of sha_demo ih_down] valid
    by (simp add: ih_down_def)
  from up down show ?thesis
    by (simp add: chain1_demo_def)
qed

text \<open>
  C3, amended.  When the store of the new block fails (storing returns an error, or
  pinning the stored block does), \<open>AddBlock\<close> returns an error to the caller and the
  block is not appended: the chain after the call is the chain before it (for a chain
  that is empty or whose latest entry is a block; on a nil latest entry the call
  panics).  When the block passed the checks (or the chain was empty, where there are
  none) the error is the store's.  The chain grows only by a block that was stored and
  pinned: no call with a failing store returns success.
\<close>

theorem AddBlock_store_failure_keeps_chain:
  assumes fails: "StoreBlock ih b = None \<or> (\<exists>cid. StoreBlock ih b = Some cid \<and> \<not> Pin ih cid)"
    and count: "0 \<le> Difficulty b"
  shows "(length (Blocks bc) = 0 \<or> Blocks bc ! (length (Blocks bc) - 1) = Some prev \<longrightarrow>
            (\<exists>err. AddBlock sha ih bc b = Return (Some err, bc) \<and>
               (length (Blocks bc) = 0 \<or>
                PrevHash b = Hash prev \<and>
                ValidateBlock sha b = Return True
                \<longrightarrow> err = StoreBlockFailed \<or> err = PinBlockFailed))) \<and>
         (\<forall>bc'. AddBlock sha ih bc b \<noteq> Return (None, bc'))"
proof (intro conjI impI allI notI)
  assume latest: "length (Blocks bc) = 0 \<or> Blocks bc ! (length (Blocks bc) - 1) = Some prev"
  show "\<exists>err. AddBlock sha ih bc b = Return (Some err, bc) \<and>
               (length (Blocks bc) = 0 \<or>
                PrevHash b = Hash prev \<and>
                ValidateBlock sha b = Return True
                \<longrightarrow> err = StoreBlockFailed \<or> err = PinBlockFailed)"
  proof (cases "length (Blocks bc) = 0")
    case True
    with fails show ?thesis
      by (auto simp: AddBlock_empty)
  next
    case False
    then have nonempty: "0 < length (Blocks bc)"
      and prev: "Blocks bc ! (length (Blocks bc) - 1) = Some prev"
      using latest by simp_all
    show ?thesis
    proof (cases "PrevHash b = Hash prev")
      case False
      with nonempty prev show ?thesis
        by (simp add: AddBlock_bad_link)
    next
      case True
      with nonempty prev fails count show ?thesis
        by (auto simp: AddBlock_linked ValidateBlock_nonneg)
    qed
  qed
next
  fix bc' assume "AddBlock sha ih bc b = Return (None, bc')"
  from AddBlock_success [OF this] obtain cid where "StoreBlock ih b = Some cid" "Pin ih cid"
    by blast
  with fails show False by auto
qed

theorem AddBlock_store_failure_keeps_chain_witness:
  "(\<exists>err. AddBlock sha_demo ih_nopin chain1_demo block1_demo = Return (Some err, chain1_demo) \<and>
          (err = StoreBlockFailed \<or> err = PinBlockFailed)) \<and>
   (\<forall>bc'. AddBlock sha_demo ih_nopin chain1_demo block1_demo \<noteq> Return (None, bc')) \<and>
   StoreBlock ih_nopin block1_demo = Some ''Qm01'' \<and> \<not> Pin ih_nopin ''Qm01'' \<and>
   PrevHash block1_demo = Hash genesis_demo \<and>
   ValidateBlock sha_demo block1_demo = Return True"
proof -
  have fails: "StoreBlock ih_nopin block1_demo = None \<or>
      (\<exists>cid. StoreBlock ih_nopin block1_demo = Some cid \<and> \<not> Pin ih_nopin cid)"
    by (simp add: ih_nopin_def)
  have count: "0 \<le> Difficulty block1_demo"
    by (simp add: block1_demo_def)
  have latest: "length (Blocks chain1_demo) = 0 \<or>
      Blocks chain1_demo ! (length (Blocks chain1_demo) - 1) = Some genesis_demo"
    by (simp add: chain1_demo_def)
  have valid: "ValidateBlock sha_demo block1_demo = Return True"
    by (simp add: ValidateBlock_nonneg leading_zeros_def CalculateHash_def sha_demo_def
        block1_demo_def)
  have prev: "PrevHash block1_demo = Hash genesis_demo"
    by (simp add: block1_demo_def genesis_demo_def)
  from AddBlock_store_failure_keeps_chain [OF fails count, of chain1_demo genesis_demo sha_demo]
    latest valid prev
  have main:
    "(\<exists>err. AddBlock sha_demo ih_nopin chain1_demo block1_demo = Return (Some err, chain1_demo) \<and>
            (err = StoreBlockFailed \<or> err = PinBlockFailed)) \<and>
     (\<forall>bc'. AddBlock sha_demo ih_nopin chain1_demo block1_demo \<noteq> Return (None, bc'))"
    by blast
  have store: "StoreBlock ih_nopin block1_demo = Some ''Qm01'' \<and> \<not> Pin ih_nopin ''Qm01''"
    by (simp add: ih_nopin_def)
  from main store prev valid show ?thesis by blast
qed

section \<open>Mining\<close>

lemma attempt_0: "attempt sha b 0 = CalculateHash sha b"
  by (simp add: attempt_def)

lemma attempt_Suc:
  "attempt sha (b\<lparr>Hash := x, Nonce := Nonce b + 1\<rparr>) k = attempt sha b (Suc k)"
  by (simp add: attempt_def CalculateHash_def add.assoc)

text \<open>
  The loop returns in the first round whose hash has the target as a prefix, with that
  round's nonce and hash.
\<close>

lemma Mine_loop_first_hit:
  "HasPrefix (attempt sha b k) target \<Longrightarrow>
   (\<forall>j<k. \<not> HasPrefix (attempt sha b j) target) \<Longrightarrow>
   Mine_loop sha target b = Some (b\<lparr>Hash := attempt sha b k, Nonce := Nonce b + of_nat k\<rparr>)"
proof (induction k arbitrary: b)
  case 0
  then show ?case
    by (subst Mine_loop.simps) (simp add: attempt_0)
next
  case (Suc k)
  let ?b' = "b\<lparr>Hash := CalculateHash sha b, Nonce := Nonce b + 1\<rparr>"
  from Suc.prems(2) have miss: "\<not> HasPrefix (CalculateHash sha b) target"
    by (metis attempt_0 zero_less_Suc)
  have hit: "HasPrefix (attempt sha ?b' k) target"
    using Suc.prems(1) by (simp add: attempt_Suc)
  have misses: "\<forall>j<k. \<not> HasPrefix (attempt sha ?b' j) target"
    using Suc.prems(2) by (simp add: attempt_Suc)
  have "Mine_loop sha target b = Mine_loop sha target ?b'"
    by (subst Mine_loop.simps) (simp add: miss)
  also have "\<dots> = Some (?b'\<lparr>Hash := attempt sha ?b' k, Nonce := Nonce ?b' + of_nat k\<rparr>)"
    by (rule Suc.IH[OF hit misses])
  also have "\<dots> = Some (b\<lparr>Hash := attempt sha b (Suc k), Nonce := Nonce b + of_nat (Suc k)\<rparr>)"
    by (simp add: attempt_Suc add.assoc)
  finally show ?case .
qed

text \<open>If the loop returns, some round's hash had the target as a prefix.\<close>

lemma Mine_loop_Some_hit:
  assumes "Mine_loop sha target b = Some y"
  shows "\<exists>k. HasPrefix (attempt sha b k) target"
proof (rule Mine_loop.raw_induct
    [where P = "\<lambda>sha target b y. \<exists>k. HasPrefix (attempt sha b k) target", OF _ assms])
  fix f :: "digest \<Rightarrow> string \<Rightarrow> Block \<Rightarrow> Block option" and sha target b y
  assume IH: "\<And>sha target b y. f sha target b = Some y \<Longrightarrow> \<exists>k. HasPrefix (attempt sha b k) target"
    and step: "(let b1 = b\<lparr>Hash := CalculateHash sha b\<rparr> in
                if HasPrefix (Hash b1) target then Some b1
                else f sha target (b1\<lparr>Nonce := Nonce b1 + 1\<rparr>)) = Some y"
  show "\<exists>k. HasPrefix (attempt sha b k) target"
  proof (cases "HasPrefix (CalculateHash sha b) target")
    case True
    then have "HasPrefix (attempt sha b 0) target" by (simp add: attempt_0)
    then show ?thesis ..
  next
    case False
    with step have "f sha target (b\<lparr>Hash := CalculateHash sha b, Nonce := Nonce b + 1\<rparr>) = Some y"
      by (simp add: Let_def)
    from IH[OF this] obtain k where "HasPrefix (attempt sha b (Suc k)) target"
      by (auto simp: attempt_Suc)
    then show ?thesis ..
  qed
qed

lemma Mine_loop_never:
  "(\<forall>k. \<not> HasPrefix (attempt sha b k) target) \<Longrightarrow> Mine_loop sha target b = None"
  using Mine_loop_Some_hit[of sha target b] by (cases "Mine_loop sha target b") auto

lemma Mine_first_hit_returns:
  assumes count: "0 \<le> Difficulty b"
    and hit: "nat (Difficulty b) \<le> leading_zeros (attempt sha b k)"
    and misses: "\<forall>j<k. \<not> nat (Difficulty b) \<le> leading_zeros (attempt sha b j)"
  shows "Mine sha b = Some (Return (b\<lparr>Hash := attempt sha b k, Nonce := Nonce b + of_nat k\<rparr>))"
proof -
  have "Mine_loop sha (replicate (nat (Difficulty b)) CHR ''0'') b =
      Some (b\<lparr>Hash := attempt sha b k, Nonce := Nonce b + of_nat k\<rparr>)"
    using hit misses by (intro Mine_loop_first_hit) (simp_all add: HasPrefix_zeros)
  with count show ?thesis
    by (simp add: Mine_def Repeat_zero_nonneg)
qed

lemma Mine_no_hit_diverges:
  assumes count: "0 \<le> Difficulty b"
    and misses: "\<forall>k. \<not> nat (Difficulty b) \<le> leading_zeros (attempt sha b k)"
  shows "Mine sha b = None"
proof -
  have "Mine_loop sha (replicate (nat (Difficulty b)) CHR ''0'') b = None"
    using misses by (intro Mine_loop_never) (simp add: HasPrefix_zeros)
  with count show ?thesis
    by (simp add: Mine_def Repeat_zero_nonneg)
qed

lemma leading_zeros_replicate: "leading_zeros (replicate n CHR ''0'') = n"
  by (simp add: leading_zeros_def)

text \<open>
  C7 as stated says that mining returns for every block and every difficulty, and with
  nonce 0 when the difficulty is 0.  A hex digest of SHA-256 has 64 characters, so no
  hash has the 65 zeros \<open>greedy_demo\<close> asks for: whatever the digest (here the most
  favourable one, all zeros), the loop never returns.  And \<open>Mine\<close> starts from the
  nonce the block carries: with difficulty 0 the first hash is accepted and the block
  comes back with its nonce 7.
\<close>

theorem Mine_may_not_return:
  "Mine sha_zeros greedy_demo = None \<and>
   Difficulty seven_demo = 0 \<and>
   Mine sha_zeros seven_demo = Some (Return (seven_demo\<lparr>Hash := replicate 64 CHR ''0''\<rparr>)) \<and>
   Nonce (seven_demo\<lparr>Hash := replicate 64 CHR ''0''\<rparr>) = 7"
proof -
  have "Mine sha_zeros greedy_demo = None"
    by (rule Mine_no_hit_diverges)
       (simp_all add: greedy_demo_def attempt_def CalculateHash_def sha_zeros_def
          leading_zeros_replicate)
  moreover have "Mine sha_zeros seven_demo = Some (Return (seven_demo\<lparr>Hash := replicate 64 CHR ''0''\<rparr>))"
    using Mine_first_hit_returns [of seven_demo sha_zeros 0]
    by (simp add: seven_demo_def attempt_def CalculateHash_def sha_zeros_def)
  moreover have "Difficulty seven_demo = 0" "Nonce (seven_demo\<lparr>Hash := replicate 64 CHR ''0''\<rparr>) = 7"
    by (simp_all add: seven_demo_def)
  ultimately show ?thesis by simp
qed

text \<open>
  C7, amended.  For a block \<open>b\<close> whose difficulty \<open>d\<close> is a count, mining tries the
  nonces \<open>Nonce b\<close>, \<open>Nonce b + 1\<close>, ... (wrapping at 64 bits).  If round \<open>k\<close> is
  the first whose hash has at least \<open>d\<close> leading zeros, \<open>Mine\<close> returns the block
  with that nonce and hash: its hash has at least \<open>d\<close> leading zeros and is the hash
  recomputed from its final fields.  If no round's hash meets the target, \<open>Mine\<close>
  never returns.  With \<open>d = 0\<close> it returns in the first round with the nonce unchanged;
  \<open>CreateBlock\<close> starts from nonce 0, so there the nonce is 0.
\<close>

theorem Mine_returns_first_hit:
  assumes count: "0 \<le> Difficulty b"
  shows
    "(nat (Difficulty b) \<le> leading_zeros (attempt sha b k) \<and>
      (\<forall>j<k. \<not> nat (Difficulty b) \<le> leading_zeros (attempt sha b j)) \<longrightarrow>
        Mine sha b = Some (Return (b\<lparr>Hash := attempt sha b k, Nonce := Nonce b + of_nat k\<rparr>)) \<and>
        nat (Difficulty b) \<le> leading_zeros (Hash (b\<lparr>Hash := attempt sha b k, Nonce := Nonce b + of_nat k\<rparr>)) \<and>
        CalculateHash sha (b\<lparr>Hash := attempt sha b k, Nonce := Nonce b + of_nat k\<rparr>) =
          Hash (b\<lparr>Hash := attempt sha b k, Nonce := Nonce b + of_nat k\<rparr>)) \<and>
     ((\<forall>k. \<not> nat (Difficulty b) \<le> leading_zeros (attempt sha b k)) \<longrightarrow> Mine sha b = None) \<and>
     (Difficulty b = 0 \<longrightarrow> Mine sha b = Some (Return (b\<lparr>Hash := CalculateHash sha b\<rparr>))) \<and>
     CreateBlock sha now index txs prev 0 =
       Some (Return \<lparr>Index = index, Timestamp = now, Transactions = txs, PrevHash = prev,
                     Hash = sha (index, now, txs, prev, 0), Nonce = 0, Difficulty = 0\<rparr>)"
proof (intro conjI impI)
  assume h: "nat (Difficulty b) \<le> leading_zeros (attempt sha b k) \<and>
      (\<forall>j<k. \<not> nat (Difficulty b) \<le> leading_zeros (attempt sha b j))"
  with count show "Mine sha b = Some (Return (b\<lparr>Hash := attempt sha b k, Nonce := Nonce b + of_nat k\<rparr>))"
    by (simp add: Mine_first_hit_returns)
  from h show "nat (Difficulty b) \<le> leading_zeros (Hash (b\<lparr>Hash := attempt sha b k, Nonce := Nonce b + of_nat k\<rparr>))"
    by simp
  show "CalculateHash sha (b\<lparr>Hash := attempt sha b k, Nonce := Nonce b + of_nat k\<rparr>) =
          Hash (b\<lparr>Hash := attempt sha b k, Nonce := Nonce b + of_nat k\<rparr>)"
    by (simp add: attempt_def CalculateHash_def)
next
  assume "\<forall>k. \<not> nat (Difficulty b) \<le> leading_zeros (attempt sha b k)"
  with count show "Mine sha b = None"
    by (simp add: Mine_no_hit_diverges)
next
  assume "Difficulty b = 0"
  then show "Mine sha b = Some (Return (b\<lparr>Hash := CalculateHash sha b\<rparr>))"
    using Mine_first_hit_returns [of b sha 0] by (simp add: attempt_0)
next
  show "CreateBlock sha now index txs prev 0 =
       Some (Return \<lparr>Index = index, Timestamp = now, Transactions = txs, PrevHash = prev,
                     Hash = sha (index, now, txs, prev, 0), Nonce = 0, Difficulty = 0\<rparr>)"
    unfolding CreateBlock_def
    using Mine_first_hit_returns
      [of "\<lparr>Index = index, Timestamp = now, Transactions = txs, PrevHash = prev, Hash = [],
            Nonce = 0, Difficulty = 0\<rparr>" sha 0]
    by (simp add: attempt_0 CalculateHash_def)
qed

theorem Mine_returns_first_hit_witness:
  "Mine sha_demo fresh_demo = Some (Return genesis_demo) \<and>
   Nonce fresh_demo = 0 \<and> Nonce genesis_demo = 2 \<and> Difficulty fresh_demo = 2 \<and>
   2 \<le> leading_zeros (Hash genesis_demo) \<and>
   CalculateHash sha_demo genesis_demo = Hash genesis_demo \<and>
   Mine sha_zeros greedy_demo = None \<and>
   Mine sha_demo seven_demo = Some (Return (seven_demo\<lparr>Hash := ''9f31''\<rparr>))"
proof -
  have count: "0 \<le> Difficulty fresh_demo" by (simp add: fresh_demo_def)
  have a: "attempt sha_demo fresh_demo 2 = ''00c7''"
    by (simp add: attempt_def CalculateHash_def sha_demo_def fresh_demo_def)
  have b: "\<forall>j<2. attempt sha_demo fresh_demo j = ''9f31''"
    by (simp add: attempt_def CalculateHash_def sha_demo_def fresh_demo_def less_2_cases_iff)
  have hit: "nat (Difficulty fresh_demo) \<le> leading_zeros (attempt sha_demo fresh_demo 2) \<and>
      (\<forall>j<2. \<not> nat (Difficulty fresh_demo) \<le> leading_zeros (attempt sha_demo fresh_demo j))"
    using a b by (simp add: leading_zeros_def fresh_demo_def)
  have g: "fresh_demo\<lparr>Hash := ''00c7'', Nonce := Nonce fresh_demo + of_nat 2\<rparr> = genesis_demo"
    by (simp add: fresh_demo_def genesis_demo_def)
  have one: "Mine sha_demo fresh_demo = Some (Return genesis_demo)"
    using Mine_returns_first_hit [OF count, of sha_demo 2] hit a g by simp
  have two: "Mine sha_zeros greedy_demo = None"
    using Mine_returns_first_hit [of greedy_demo sha_zeros]
    by (simp add: greedy_demo_def attempt_def CalculateHash_def sha_zeros_def leading_zeros_replicate)
  have three: "Mine sha_demo seven_demo = Some (Return (seven_demo\<lparr>Hash := ''9f31''\<rparr>))"
    using Mine_returns_first_hit [of seven_demo sha_demo]
    by (simp add: seven_demo_def CalculateHash_def sha_demo_def)
  show ?thesis
    using one two three
    by (simp add: fresh_demo_def genesis_demo_def leading_zeros_def CalculateHash_def sha_demo_def)
qed

section \<open>Validity of a chain\<close>

declare IsValid_loop.simps [simp del] RestoreFromIPFS_loop.simps [simp del]

text \<open>One round of the loop of \<open>IsValid\<close>.\<close>

lemma IsValid_loop_end: "\<not> i < length blocks \<Longrightarrow> IsValid_loop sha blocks i = Return True"
  by (subst IsValid_loop.simps) simp

lemma IsValid_loop_nil:
  "i < length blocks \<Longrightarrow> blocks ! i = None \<or> blocks ! (i - 1) = None \<Longrightarrow>
     IsValid_loop sha blocks i = Panic"
  by (subst IsValid_loop.simps) (auto simp: Let_def split: option.splits)

lemma IsValid_loop_round:
  "i < length blocks \<Longrightarrow> blocks ! i = Some cur \<Longrightarrow> blocks ! (i - 1) = Some prev \<Longrightarrow>
     IsValid_loop sha blocks i =
       (if PrevHash cur \<noteq> Hash prev then Return False
        else (case ValidateBlock sha cur of
                Panic \<Rightarrow> Panic
              | Return ok \<Rightarrow> if \<not> ok then Return False else IsValid_loop sha blocks (i + 1)))"
  by (subst IsValid_loop.simps) (simp add: Let_def)

lemma all_from_split:
  fixes i n :: nat
  assumes "i < n"
  shows "(\<forall>j. i \<le> j \<and> j < n \<longrightarrow> P j) \<longleftrightarrow> P i \<and> (\<forall>j. i + 1 \<le> j \<and> j < n \<longrightarrow> P j)"
proof
  assume all: "\<forall>j. i \<le> j \<and> j < n \<longrightarrow> P j"
  with assms have "P i" by simp
  moreover have "\<forall>j. i + 1 \<le> j \<and> j < n \<longrightarrow> P j"
    using all by simp
  ultimately show "P i \<and> (\<forall>j. i + 1 \<le> j \<and> j < n \<longrightarrow> P j)" ..
next
  assume rhs: "P i \<and> (\<forall>j. i + 1 \<le> j \<and> j < n \<longrightarrow> P j)"
  show "\<forall>j. i \<le> j \<and> j < n \<longrightarrow> P j"
  proof (intro allI impI)
    fix j assume j: "i \<le> j \<and> j < n"
    show "P j"
    proof (cases "j = i")
      case True
      with rhs show ?thesis by simp
    next
      case False
      with j have "i + 1 \<le> j" by simp
      with rhs j show ?thesis by simp
    qed
  qed
qed

text \<open>
  The loop of \<open>IsValid\<close> started at index \<open>i\<close> returns true exactly when every
  entry from \<open>i\<close> on is a block that follows a block, names its hash and validates.
\<close>

lemma IsValid_loop_True_iff:
  "IsValid_loop sha blocks i = Return True \<longleftrightarrow>
     (\<forall>j. i \<le> j \<and> j < length blocks \<longrightarrow>
        (\<exists>prev cur. blocks ! (j - 1) = Some prev \<and> blocks ! j = Some cur \<and>
           PrevHash cur = Hash prev \<and> ValidateBlock sha cur = Return True))"
proof -
  define ok where "ok = (\<lambda>j. \<exists>prev cur. blocks ! (j - 1) = Some prev \<and> blocks ! j = Some cur \<and>
           PrevHash cur = Hash prev \<and> ValidateBlock sha cur = Return True)"
  have "IsValid_loop sha blocks i = Return True \<longleftrightarrow> (\<forall>j. i \<le> j \<and> j < length blocks \<longrightarrow> ok j)"
  proof (induction "length blocks - i" arbitrary: i)
    case 0
    then have out: "\<not> i < length blocks" by simp
    then have "\<forall>j. i \<le> j \<and> j < length blocks \<longrightarrow> ok j" by auto
    with out show ?case
      by (simp add: IsValid_loop_end)
  next
    case (Suc n)
    then have inside: "i < length blocks" and less: "n = length blocks - (i + 1)" by simp_all
    note IH = Suc.hyps(1) [OF less]
    note split = all_from_split [OF inside, of ok]
    show ?case
    proof (cases "ok i")
      case True
      then obtain prev cur where pc: "blocks ! (i - 1) = Some prev" "blocks ! i = Some cur"
        and good: "PrevHash cur = Hash prev" "ValidateBlock sha cur = Return True"
        unfolding ok_def by blast
      have "IsValid_loop sha blocks i = IsValid_loop sha blocks (i + 1)"
        by (simp add: IsValid_loop_round [OF inside pc(2) pc(1)] good)
      with IH True show ?thesis
        unfolding split by simp
    next
      case False
      have "IsValid_loop sha blocks i \<noteq> Return True"
      proof (cases "blocks ! i = None \<or> blocks ! (i - 1) = None")
        case True
        with inside show ?thesis by (simp add: IsValid_loop_nil)
      next
        case some: False
        then obtain prev cur where pc: "blocks ! (i - 1) = Some prev" "blocks ! i = Some cur"
          by auto
        with False have bad: "PrevHash cur \<noteq> Hash prev \<or> ValidateBlock sha cur \<noteq> Return True"
          unfolding ok_def by simp
        show ?thesis
        proof (cases "PrevHash cur = Hash prev")
          case False
          then show ?thesis
            by (simp add: IsValid_loop_round [OF inside pc(2) pc(1)])
        next
          case True
          with bad have "ValidateBlock sha cur \<noteq> Return True" by simp
          with True show ?thesis
            by (cases "ValidateBlock sha cur")
               (simp_all add: IsValid_loop_round [OF inside pc(2) pc(1)])
        qed
      qed
      with False show ?thesis
        unfolding split by simp
    qed
  qed
  then show ?thesis
    unfolding ok_def .
qed

lemma linked_pair_iff:
  "(case p of
      None \<Rightarrow> False
    | Some prev \<Rightarrow> (case c of None \<Rightarrow> False | Some b \<Rightarrow> block_invariants sha prev b)) \<longleftrightarrow>
   (\<exists>prev cur. p = Some prev \<and> c = Some cur \<and>
      PrevHash cur = Hash prev \<and> ValidateBlock sha cur = Return True)"
  by (cases p; cases c) (auto simp: block_invariants_def ValidateBlock_True_iff)

lemma links_valid_iff:
  "links_valid sha blocks \<longleftrightarrow>
     (\<forall>j. 1 \<le> j \<and> j < length blocks \<longrightarrow>
        (\<exists>prev cur. blocks ! (j - 1) = Some prev \<and> blocks ! j = Some cur \<and>
           PrevHash cur = Hash prev \<and> ValidateBlock sha cur = Return True))"
  unfolding links_valid_def linked_pair_iff by auto

lemma IsValid_links_valid: "IsValid sha bc = Return True \<longleftrightarrow> links_valid sha (Blocks bc)"
  by (simp only: IsValid_def IsValid_loop_True_iff links_valid_iff)

lemma links_valid_snoc:
  assumes valid: "links_valid sha blocks"
    and new: "0 < length blocks \<longrightarrow>
      (\<exists>prev. blocks ! (length blocks - 1) = Some prev \<and> block_invariants sha prev b)"
  shows "links_valid sha (blocks @ [Some b])"
  unfolding links_valid_iff
proof (intro allI impI)
  fix j assume j: "1 \<le> j \<and> j < length (blocks @ [Some b])"
  show "\<exists>prev cur. (blocks @ [Some b]) ! (j - 1) = Some prev \<and> (blocks @ [Some b]) ! j = Some cur \<and>
           PrevHash cur = Hash prev \<and> ValidateBlock sha cur = Return True"
  proof (cases "j < length blocks")
    case True
    then have "j - 1 < length blocks" by simp
    with True j valid show ?thesis
      by (simp add: links_valid_iff nth_append)
  next
    case False
    with j have "j = length blocks" "0 < length blocks" by auto
    with new show ?thesis
      by (auto simp: nth_append block_invariants_def ValidateBlock_True_iff)
  qed
qed

lemma AddBlock_keeps_valid:
  assumes valid: "IsValid sha bc = Return True"
    and added: "AddBlock sha ih bc b = Return (None, bc')"
  shows "IsValid sha bc' = Return True"
proof -
  from AddBlock_success [OF added]
  have bc': "bc' = bc\<lparr>Blocks := Blocks bc @ [Some b]\<rparr>"
    and new: "0 < length (Blocks bc) \<longrightarrow>
        (\<exists>prev. Blocks bc ! (length (Blocks bc) - 1) = Some prev \<and> PrevHash b = Hash prev) \<and>
        ValidateBlock sha b = Return True"
    by simp_all
  from new have "0 < length (Blocks bc) \<longrightarrow>
      (\<exists>prev. Blocks bc ! (length (Blocks bc) - 1) = Some prev \<and> block_invariants sha prev b)"
    by (auto simp: block_invariants_def ValidateBlock_True_iff)
  with valid have "links_valid sha (Blocks bc @ [Some b])"
    by (intro links_valid_snoc) (simp_all add: IsValid_links_valid)
  then show ?thesis
    by (simp add: IsValid_links_valid bc')
qed

lemma AddBlocks_keeps_valid:
  "IsValid sha bc0 = Return True \<Longrightarrow> AddBlocks sha bc0 calls = Return (None, bc) \<Longrightarrow>
     IsValid sha bc = Return True"
proof (induction calls arbitrary: bc0)
  case Nil
  then show ?case by simp
next
  case (Cons call calls)
  obtain ih b where call: "call = (ih, b)" by (cases call)
  from Cons.prems(2) obtain bc1 where
    first: "AddBlock sha ih bc0 b = Return (None, bc1)" and
    rest: "AddBlocks sha bc1 calls = Return (None, bc)"
    unfolding call by (auto split: outcome.splits option.splits prod.splits)
  from AddBlock_keeps_valid [OF Cons.prems(1) first] rest show ?case
    by (rule Cons.IH)
qed

lemma AddBlocks_blocks:
  "AddBlocks sha bc0 calls = Return (None, bc) \<Longrightarrow>
     Blocks bc = Blocks bc0 @ map (\<lambda>call. Some (snd call)) calls"
proof (induction calls arbitrary: bc0)
  case Nil
  then show ?case by simp
next
  case (Cons call calls)
  obtain ih b where call: "call = (ih, b)" by (cases call)
  from Cons.prems obtain bc1 where
    first: "AddBlock sha ih bc0 b = Return (None, bc1)" and
    rest: "AddBlocks sha bc1 calls = Return (None, bc)"
    unfolding call by (auto split: outcome.splits option.splits prod.splits)
  from AddBlock_success [OF first] Cons.IH [OF rest] show ?case
    by (simp add: call)
qed

lemma IsValid_empty: "length (Blocks bc) = 0 \<Longrightarrow> IsValid sha bc = Return True"
  by (simp add: IsValid_links_valid links_valid_def)

text \<open>
  C6.  Start from a store with no block and run \<open>AddBlock\<close> calls that all succeed
  (the first appends the genesis block): \<open>IsValid\<close> returns true for the chain
  they leave, which holds the appended blocks in the order of the calls.
\<close>

theorem AddBlocks_chain_IsValid:
  "length (Blocks bc0) = 0 \<Longrightarrow> AddBlocks sha bc0 calls = Return (None, bc) \<Longrightarrow>
     IsValid sha bc = Return True \<and> Blocks bc = map (\<lambda>call. Some (snd call)) calls"
  using AddBlocks_keeps_valid [of sha bc0 calls bc] AddBlocks_blocks [of sha bc0 calls bc]
  by (simp add: IsValid_empty)

theorem AddBlocks_chain_IsValid_witness:
  "AddBlocks sha_demo empty_chain [(ih_up, genesis_demo), (ih_up, block1_demo)] =
     Return (None, chain2_demo) \<and>
   IsValid sha_demo chain2_demo = Return True \<and>
   Blocks chain2_demo = [Some genesis_demo, Some block1_demo]"
proof -
  have first: "AddBlock sha_demo ih_up empty_chain genesis_demo = Return (None, chain1_demo)"
    by (simp add: AddBlock_empty empty_chain_def chain1_demo_def ih_up_def)
  have latest: "Blocks chain1_demo ! (length (Blocks chain1_demo) - 1) = Some genesis_demo"
    by (simp add: chain1_demo_def)
  have link: "PrevHash block1_demo = Hash genesis_demo"
    by (simp add: block1_demo_def genesis_demo_def)
  have valid: "ValidateBlock sha_demo block1_demo = Return True"
    by (simp add: ValidateBlock_nonneg leading_zeros_def CalculateHash_def sha_demo_def
        block1_demo_def)
  have nonempty: "0 < length (Blocks chain1_demo)"
    by (simp add: chain1_demo_def)
  have second: "AddBlock sha_demo ih_up chain1_demo block1_demo = Return (None, chain2_demo)"
    using AddBlock_linked [OF nonempty latest link, of sha_demo ih_up] valid
    by (simp add: ih_up_def chain1_demo_def chain2_demo_def)
  have run: "AddBlocks sha_demo empty_chain [(ih_up, genesis_demo), (ih_up, block1_demo)] =
      Return (None, chain2_demo)"
    by (simp add: first second)
  have "length (Blocks empty_chain) = 0" by (simp add: empty_chain_def)
  from AddBlocks_chain_IsValid [OF this run] run show ?thesis
    by (simp add: chain2_demo_def)
qed

lemma links_valid_two:
  "links_valid sha [Some g, Some b] \<longleftrightarrow> block_invariants sha g b"
proof -
  have "{1..<length [Some g, Some b]} = {1::nat}" by auto
  then show ?thesis
    by (simp add: links_valid_def)
qed

text \<open>
  C9 as stated says that \<open>IsValid\<close> returns true exactly for the chains that
  satisfy the chain invariant, well-formed genesis included.  \<open>IsValid\<close> starts at
  index 1 and never reads the first block but for its hash: the chain here begins with a
  block of index 5, with a transaction, a previous hash and a stored hash that is not
  its hash, and \<open>IsValid\<close> returns true for it.
\<close>

theorem IsValid_accepts_malformed_genesis:
  "IsValid sha_demo forged_chain = Return True \<and>
   \<not> spec_chain_invariant sha_demo (Blocks forged_chain) \<and>
   \<not> genesis_well_formed forged_demo \<and>
   CalculateHash sha_demo forged_demo \<noteq> Hash forged_demo"
proof -
  have "IsValid sha_demo forged_chain = Return True"
    by (simp add: IsValid_links_valid forged_chain_def links_valid_two block_invariants_def
        follower_demo_def forged_demo_def CalculateHash_def sha_demo_def leading_zeros_def)
  moreover have "\<not> genesis_well_formed forged_demo"
    by (simp add: genesis_well_formed_def forged_demo_def)
  moreover have "CalculateHash sha_demo forged_demo \<noteq> Hash forged_demo"
    by (simp add: forged_demo_def CalculateHash_def sha_demo_def)
  ultimately show ?thesis
    by (simp add: spec_chain_invariant_def forged_chain_def)
qed

text \<open>
  C9, amended.  \<open>IsValid\<close> returns true exactly for the chains in which every
  block after the first names its predecessor's hash, carries the hash recomputed from
  its fields and meets its own difficulty target.  The first block is not inspected (a
  chain of at most one block is always valid), so every chain that satisfies the
  invariant with a well-formed genesis is valid, but not only those.
\<close>

theorem IsValid_checks_links_only:
  "(IsValid sha bc = Return True \<longleftrightarrow> links_valid sha (Blocks bc)) \<and>
   (spec_chain_invariant sha (Blocks bc) \<longrightarrow> IsValid sha bc = Return True) \<and>
   (length (Blocks bc) \<le> 1 \<longrightarrow> IsValid sha bc = Return True)"
proof (intro conjI impI)
  show "IsValid sha bc = Return True \<longleftrightarrow> links_valid sha (Blocks bc)"
    by (rule IsValid_links_valid)
next
  assume "spec_chain_invariant sha (Blocks bc)"
  then show "IsValid sha bc = Return True"
    by (simp add: IsValid_links_valid spec_chain_invariant_def split: list.splits)
next
  assume "length (Blocks bc) \<le> 1"
  then show "IsValid sha bc = Return True"
    by (simp add: IsValid_links_valid links_valid_def)
qed

theorem IsValid_checks_links_only_witness:
  "IsValid sha_demo chain2_demo = Return True \<and>
   spec_chain_invariant sha_demo (Blocks chain2_demo) \<and>
   IsValid sha_demo stray_chain \<noteq> Return True \<and>
   IsValid sha_demo chain1_demo = Return True"
proof -
  have inv: "spec_chain_invariant sha_demo (Blocks chain2_demo)"
    by (simp add: spec_chain_invariant_def chain2_demo_def links_valid_two block_invariants_def
        genesis_well_formed_def genesis_demo_def block1_demo_def CalculateHash_def sha_demo_def
        leading_zeros_def)
  have bad: "\<not> links_valid sha_demo (Blocks stray_chain)"
    by (simp add: stray_chain_def links_valid_two block_invariants_def genesis_demo_def
        stray_demo_def)
  have one: "length (Blocks chain1_demo) \<le> 1"
    by (simp add: chain1_demo_def)
  from IsValid_checks_links_only [of sha_demo chain2_demo] inv
    IsValid_checks_links_only [of sha_demo stray_chain] bad
    IsValid_checks_links_only [of sha_demo chain1_demo] one
  show ?thesis by simp
qed


section \<open>Restoring a chain from the backup store\<close>









lemma RestoreFromIPFS_error_unchanged:
  "RestoreFromIPFS sha ih reads bc hash = Return (Some err, bc') \<Longrightarrow> bc' = bc"
  by (auto simp: RestoreFromIPFS_def split: outcome.splits option.splits)

lemma same_chain: "blockchain pn = Some bc \<Longrightarrow> pn\<lparr>blockchain := Some bc\<rparr> = pn"
  by (cases pn) simp


section \<open>Messages from the network\<close>

lemma Decode_fields:
  "Type (Decode f) = frame_type f" "Content (Decode f) = Untyped (frame_content f)"
  "From (Decode f) = frame_from f" "To (Decode f) = frame_to f"
  by (simp_all add: Decode_def)



text \<open>What the type assertions of the handler do to decoded content.\<close>

lemma round_drops_new_block:
  "frame_type f = MessageTypeNewBlock \<Longrightarrow> handleMessages_round sha ih pn conn f = Return (pn, [])"
  by (simp add: handleMessages_round_def handleMessage_def Decode_fields)

lemma round_drops_chain_response:
  "frame_type f = MessageTypeBlockchainResponse \<Longrightarrow>
     handleMessages_round sha ih pn conn f = Return (pn, [])"
  by (simp add: handleMessages_round_def handleMessage_def Decode_fields
      MessageTypeBlockchainResponse_def MessageTypeNewBlock_def MessageTypeNewTx_def
      MessageTypeBlockchain_def)

text \<open>What the handler does when the content has the pointer type it asserts.\<close>

lemma handleMessage_new_block_typed:
  assumes "Type m = MessageTypeNewBlock" and "Content m = BlockPtr block"
    and "blockchain pn = Some bc"
  shows "handleMessage sha ih pn m conn =
     (case AddBlock sha ih bc block of
        Panic \<Rightarrow> Panic
      | Return (Some err, bc') \<Rightarrow> Return (pn, [])
      | Return (None, bc') \<Rightarrow>
          Return (pn\<lparr>blockchain := Some (bc\<lparr>Blocks := Blocks bc @ [Some block]\<rparr>)\<rparr>,
                  map (\<lambda>(addr, peer).
                         (Conn peer, \<lparr>Type = MessageTypeNewBlock, Content = BlockPtr block,
                                      From = MyAddress pn, To = []\<rparr>)) (Peers pn)))"
proof (cases "AddBlock sha ih bc block")
  case Panic
  with assms show ?thesis by (simp add: handleMessage_def)
next
  case (Return r)
  obtain err bc' where r: "r = (err, bc')" by (cases r)
  show ?thesis
  proof (cases err)
    case None
    with Return r AddBlock_success [of sha ih bc block bc'] assms show ?thesis
      by (simp add: handleMessage_def BroadcastNewBlock_def BroadcastMessage_def)
  next
    case (Some e)
    with Return r AddBlock_error_unchanged [of sha ih bc block e bc'] assms show ?thesis
      by (simp add: handleMessage_def same_chain)
  qed
qed

lemma handleMessage_chain_response_typed:
  assumes "Type m = MessageTypeBlockchainResponse" and "Content m = BlockchainPtr remote"
    and "blockchain pn = Some bc"
  shows "handleMessage sha ih pn m conn =
     (if length (Blocks bc) < length (Blocks remote) then
        (case IsValid sha remote of
           Panic \<Rightarrow> Panic
         | Return ok \<Rightarrow> if ok then Return (pn\<lparr>blockchain := Some remote\<rparr>, []) else Return (pn, []))
      else Return (pn, []))"
  using assms
  by (simp add: handleMessage_def MessageTypeBlockchainResponse_def MessageTypeNewBlock_def
      MessageTypeNewTx_def MessageTypeBlockchain_def)

text \<open>
  C4.  The peer holds the one-block chain and has two connections.  The second block
  would be accepted by \<open>AddBlock\<close>.  When it arrives in a \<open>NEW_BLOCK\<close> frame the
  round neither appends nor sends anything: the decoded content is a map, not a
  \<open>*Block\<close>.  Given a message whose content is a \<open>*Block\<close>, the handler appends
  the block and sends it to both peers.
\<close>

theorem new_block_from_wire_dropped:
  "AddBlock sha_demo ih_up chain1_demo block1_demo = Return (None, chain2_demo) \<and>
   blockchain pn_demo = Some chain1_demo \<and>
   handleMessages_round sha_demo ih_up pn_demo 2 new_block_frame = Return (pn_demo, []) \<and>
   handleMessage sha_demo ih_up pn_demo new_block_message 2 =
     Return (pn_demo\<lparr>blockchain := Some chain2_demo\<rparr>,
             [(2, \<lparr>Type = ''NEW_BLOCK'', Content = BlockPtr block1_demo,
                   From = ''localhost:9001'', To = []\<rparr>),
              (3, \<lparr>Type = ''NEW_BLOCK'', Content = BlockPtr block1_demo,
                   From = ''localhost:9001'', To = []\<rparr>)])"
proof -
  have add: "AddBlock sha_demo ih_up chain1_demo block1_demo = Return (None, chain2_demo)"
    by (simp add: AddBlock_linked ValidateBlock_nonneg leading_zeros_def CalculateHash_def
        sha_demo_def block1_demo_def chain1_demo_def chain2_demo_def genesis_demo_def ih_up_def)
  have local: "blockchain pn_demo = Some chain1_demo"
    by (simp add: pn_demo_def)
  have wire: "handleMessages_round sha_demo ih_up pn_demo 2 new_block_frame = Return (pn_demo, [])"
    by (rule round_drops_new_block) (simp add: new_block_frame_def MessageTypeNewBlock_def)
  have grown: "chain1_demo\<lparr>Blocks := Blocks chain1_demo @ [Some block1_demo]\<rparr> = chain2_demo"
    by (simp add: chain1_demo_def chain2_demo_def)
  have typed: "handleMessage sha_demo ih_up pn_demo new_block_message 2 =
     Return (pn_demo\<lparr>blockchain := Some chain2_demo\<rparr>,
             [(2, \<lparr>Type = ''NEW_BLOCK'', Content = BlockPtr block1_demo,
                   From = ''localhost:9001'', To = []\<rparr>),
              (3, \<lparr>Type = ''NEW_BLOCK'', Content = BlockPtr block1_demo,
                   From = ''localhost:9001'', To = []\<rparr>)])"
    using handleMessage_new_block_typed [of new_block_message block1_demo pn_demo chain1_demo
        sha_demo ih_up 2] add local grown
    by (simp add: new_block_message_def MessageTypeNewBlock_def pn_demo_def)
  from add local wire typed show ?thesis by simp
qed

text \<open>
  C1.  The peer holds the one-block chain.  The two-block chain is longer and valid.
  When it arrives in a \<open>BLOCKCHAIN_RESPONSE\<close> frame the round leaves the local
  chain as it was: the decoded content is a map, not a \<open>*Blockchain\<close>.  Given a
  message whose content is a \<open>*Blockchain\<close>, the handler adopts the chain.
\<close>

theorem chain_response_from_wire_dropped:
  "blockchain pn_demo = Some chain1_demo \<and>
   length (Blocks chain1_demo) < length (Blocks chain2_demo) \<and>
   IsValid sha_demo chain2_demo = Return True \<and>
   handleMessages_round sha_demo ih_up pn_demo 2 chain_response_frame = Return (pn_demo, []) \<and>
   handleMessage sha_demo ih_up pn_demo chain_response_message 2 =
     Return (pn_demo\<lparr>blockchain := Some chain2_demo\<rparr>, [])"
proof -
  have local: "blockchain pn_demo = Some chain1_demo"
    by (simp add: pn_demo_def)
  have longer: "length (Blocks chain1_demo) < length (Blocks chain2_demo)"
    by (simp add: chain1_demo_def chain2_demo_def)
  have valid: "IsValid sha_demo chain2_demo = Return True"
    by (simp add: IsValid_links_valid chain2_demo_def links_valid_two block_invariants_def
        genesis_demo_def block1_demo_def CalculateHash_def sha_demo_def leading_zeros_def)
  have wire: "handleMessages_round sha_demo ih_up pn_demo 2 chain_response_frame =
      Return (pn_demo, [])"
    by (rule round_drops_chain_response)
       (simp add: chain_response_frame_def MessageTypeBlockchainResponse_def)
  have typed: "handleMessage sha_demo ih_up pn_demo chain_response_message 2 =
      Return (pn_demo\<lparr>blockchain := Some chain2_demo\<rparr>, [])"
    using handleMessage_chain_response_typed [of chain_response_message chain2_demo pn_demo
        chain1_demo sha_demo ih_up 2] local longer valid
    by (simp add: chain_response_message_def MessageTypeBlockchainResponse_def)
  from local longer valid wire typed show ?thesis by simp
qed

end
